theory Spec2Isabelle
  imports Main
begin

section \<open>Strings as the source uses them\<close>

text \<open>
  JavaScript strings are modelled as \<open>string\<close>. Every pattern the source compares
  against is ASCII, so containment over bytes and over UTF-16 code units agree.
\<close>

text \<open>\<^verbatim>\<open>s.startsWith(pat)\<close>; used to unfold \<^verbatim>\<open>s.includes(pat)\<close>.\<close>

definition startsWith :: "string \<Rightarrow> string \<Rightarrow> bool" where
  "startsWith s pat = (take (length pat) s = pat)"

text \<open>\<^verbatim>\<open>s.includes(pat)\<close>: \<open>pat\<close> occurs at some position of \<open>s\<close>.\<close>

fun str_includes :: "string \<Rightarrow> string \<Rightarrow> bool" where
  "str_includes [] pat = (pat = [])"
| "str_includes (c # cs) pat = (startsWith (c # cs) pat \<or> str_includes cs pat)"

text \<open>Truthiness of an optional string: \<^verbatim>\<open>undefined\<close>, \<^verbatim>\<open>null\<close> and \<^verbatim>\<open>""\<close> are falsy.\<close>

definition truthy :: "string option \<Rightarrow> bool" where
  "truthy v = (case v of None \<Rightarrow> False | Some s \<Rightarrow> s \<noteq> [])"

section \<open>Route protection middleware (EdgeGuard)\<close>

text \<open>The part of \<^verbatim>\<open>NextRequest\<close> the middleware reads.\<close>

record NextRequest =
  nextUrl_pathname :: string
  cookies :: "string \<rightharpoonup> string"
  url :: string

text \<open>
  A \<^verbatim>\<open>URL\<close> object built by \<^verbatim>\<open>new URL(path, base)\<close>: the base it was resolved
  against, its path and its search parameters (name and value, as set, before any
  serialisation).
\<close>

record URL =
  base :: string
  path :: string
  searchParams :: "(string \<times> string) list"

definition new_URL :: "string \<Rightarrow> string \<Rightarrow> URL" where
  "new_URL p b = \<lparr>base = b, path = p, searchParams = []\<rparr>"

text \<open>\<^verbatim>\<open>URLSearchParams.set\<close>: the first entry of that name is replaced and the
  others are removed; with no such entry the pair is appended.\<close>

fun set_param :: "string \<Rightarrow> string \<Rightarrow> (string \<times> string) list \<Rightarrow> (string \<times> string) list" where
  "set_param k v [] = [(k, v)]"
| "set_param k v (kv # ps) =
     (if fst kv = k then (k, v) # filter (\<lambda>e. fst e \<noteq> k) ps else kv # set_param k v ps)"

definition searchParams_set :: "URL \<Rightarrow> string \<Rightarrow> string \<Rightarrow> URL" where
  "searchParams_set u k v = u\<lparr>searchParams := set_param k v (searchParams u)\<rparr>"

datatype NextResponse = NextResponse_redirect URL | NextResponse_next

definition TOKEN_KEY_middleware :: string where
  "TOKEN_KEY_middleware = ''inopsio_token''"

definition PROTECTED_PATTERNS :: "string list" where
  "PROTECTED_PATTERNS = [''/dashboard'', ''/admin'']"

definition AUTH_ROUTES :: "string list" where
  "AUTH_ROUTES = [''/signin'', ''/signup'', ''/login'']"

definition is_a_z :: "char \<Rightarrow> bool" where
  "is_a_z c = (c \<in> set ''abcdefghijklmnopqrstuvwxyz'')"

text \<open>\<^verbatim>\<open>pathname.match(/^\/([a-z]{2})\//)\<close>: the first capture group, when the
  path starts with a slash, two lower-case letters and a slash.\<close>

fun localeMatch :: "string \<Rightarrow> string option" where
  "localeMatch (c0 # a # b # c3 # rest) =
     (if c0 = CHR ''/'' \<and> is_a_z a \<and> is_a_z b \<and> c3 = CHR ''/'' then Some [a, b] else None)"
| "localeMatch _ = None"

definition locale_of :: "string \<Rightarrow> string" where
  "locale_of pathname = (case localeMatch pathname of Some l \<Rightarrow> l | None \<Rightarrow> ''en'')"

text \<open>
  The claim's words for the locale of a path, to be compared with \<open>localeMatch\<close>:
  the leading segment of a path is what stands between its first slash and the next
  one (or the end), and it is a locale segment when it is two letters, of either case.
\<close>

definition is_letter :: "char \<Rightarrow> bool" where
  "is_letter c = (c \<in> set ''abcdefghijklmnopqrstuvwxyz'' \<union> set ''ABCDEFGHIJKLMNOPQRSTUVWXYZ'')"

definition spec_leading_segment :: "string \<Rightarrow> string option" where
  "spec_leading_segment p =
     (case p of
        [] \<Rightarrow> None
      | c # rest \<Rightarrow> if c = CHR ''/'' then Some (takeWhile (\<lambda>x. x \<noteq> CHR ''/'') rest) else None)"

definition spec_leading_locale :: "string \<Rightarrow> string option" where
  "spec_leading_locale p =
     (case spec_leading_segment p of
        None \<Rightarrow> None
      | Some seg \<Rightarrow> if length seg = 2 \<and> list_all is_letter seg then Some seg else None)"

text \<open>
  The locale of a redirect as the amended claim has it: the leading locale segment
  when both of its letters are lower-case, and \<^verbatim>\<open>en\<close> in every other case.
\<close>

definition amended_locale :: "string \<Rightarrow> string" where
  "amended_locale p =
     (case spec_leading_locale p of
        None \<Rightarrow> ''en''
      | Some l \<Rightarrow> if list_all is_a_z l then l else ''en'')"

definition isProtectedRoute :: "string \<Rightarrow> bool" where
  "isProtectedRoute pathname = list_ex (\<lambda>pattern. str_includes pathname pattern) PROTECTED_PATTERNS"

definition isAuthRoute :: "string \<Rightarrow> bool" where
  "isAuthRoute pathname = list_ex (\<lambda>route. str_includes pathname route) AUTH_ROUTES"

definition middleware :: "NextRequest \<Rightarrow> NextResponse" where
  "middleware request =
     (let pathname = nextUrl_pathname request;
          token = cookies request TOKEN_KEY_middleware;
          locale = locale_of pathname
      in if isProtectedRoute pathname \<and> \<not> truthy token then
           NextResponse_redirect
             (searchParams_set (new_URL (''/'' @ locale @ ''/signin'') (url request))
                ''callbackUrl'' pathname)
         else if isAuthRoute pathname \<and> truthy token then
           NextResponse_redirect (new_URL (''/'' @ locale @ ''/dashboard'') (url request))
         else NextResponse_next)"

section \<open>API client: token storage\<close>

definition TOKEN_KEY :: string where
  "TOKEN_KEY = ''inopsio_token''"

text \<open>
  The browser state the client touches: \<^verbatim>\<open>localStorage\<close> and the strings assigned
  to \<^verbatim>\<open>document.cookie\<close>, in the order of assignment. The global \<^verbatim>\<open>window\<close> is
  a \<open>browser option\<close>: \<open>None\<close> when \<^verbatim>\<open>typeof window === "undefined"\<close> (code
  running on the server).
\<close>

record browser =
  localStorage :: "string \<rightharpoonup> string"
  document_cookie :: "string list"

definition digit_char :: "nat \<Rightarrow> char" where
  "digit_char d = (''0123456789'' ! (d mod 10))"

text \<open>A non-negative integer inside a template literal: its decimal digits.\<close>

fun string_of_nat :: "nat \<Rightarrow> string" where
  "string_of_nat n =
     (if n < 10 then [digit_char n] else string_of_nat (n div 10) @ [digit_char (n mod 10)])"

declare string_of_nat.simps [simp del]

definition getToken :: "browser option \<Rightarrow> string option" where
  "getToken window = (case window of None \<Rightarrow> None | Some b \<Rightarrow> localStorage b TOKEN_KEY)"

definition setToken :: "string \<Rightarrow> browser option \<Rightarrow> browser option" where
  "setToken token window =
     (case window of
        None \<Rightarrow> None
      | Some b \<Rightarrow>
          Some (b\<lparr>localStorage := (localStorage b)(TOKEN_KEY \<mapsto> token),
                  document_cookie := document_cookie b @
                    [TOKEN_KEY @ ''='' @ token @ ''; path=/; max-age=''
                       @ string_of_nat (60 * 60 * 24 * 7) @ ''; SameSite=Lax'']\<rparr>))"

definition clearToken :: "browser option \<Rightarrow> browser option" where
  "clearToken window =
     (case window of
        None \<Rightarrow> None
      | Some b \<Rightarrow>
          Some (b\<lparr>localStorage := (localStorage b)(TOKEN_KEY := None),
                  document_cookie := document_cookie b @
                    [TOKEN_KEY @ ''=; path=/; max-age=0'']\<rparr>))"

section \<open>API client: requests and responses\<close>

datatype BodyInit = URLSearchParams "(string \<times> string) list" | JSON_text string

record Request =
  request_url :: string
  request_method :: string
  request_headers :: "string \<rightharpoonup> string"
  request_body :: "BodyInit option"
  request_credentials :: string

text \<open>
  A \<^verbatim>\<open>Response\<close>: its status, its \<^verbatim>\<open>X-Request-ID\<close> header and the outcome of
  \<^verbatim>\<open>response.json()\<close>, \<open>None\<close> when that promise rejects (the body is not JSON).
  What a parsed body is depends on the caller.
\<close>

record 'b Response =
  response_status :: nat
  response_request_id :: "string option"
  response_json :: "'b option"

text \<open>\<^verbatim>\<open>response.ok\<close> is the Fetch standard's: a status from 200 to 299.\<close>

definition response_ok :: "'b Response \<Rightarrow> bool" where
  "response_ok response = (200 \<le> response_status response \<and> response_status response \<le> 299)"

text \<open>
  A JSON value as \<^verbatim>\<open>JSON.parse\<close> builds it; an object is the list of its members,
  every name once. Numbers are a type parameter: the client sees a number only through
  its truthiness and its conversion to a string, and the functions that need those take
  them as arguments.
\<close>

datatype 'n json =
  JNull | JBool bool | JNumber 'n | JString string
  | JArray "'n json list" | JObject "(string \<times> 'n json) list"

record 'n ApiError =
  message :: string
  status :: nat
  detail :: "'n json option"
  requestId :: "string option"

text \<open>
  What a call can throw: the client's \<^verbatim>\<open>ApiError\<close>, a plain \<^verbatim>\<open>Error\<close> with its
  message, the \<^verbatim>\<open>SyntaxError\<close> of a body that does not parse, and a
  \<^verbatim>\<open>TypeError\<close>: the one with which \<^verbatim>\<open>fetch\<close> rejects when no response arrives and
  the one of reading a property of \<^verbatim>\<open>null\<close>.
\<close>

datatype 'n thrown = Thrown_ApiError "'n ApiError" | Thrown_Error string | SyntaxError | TypeError





text \<open>\<^verbatim>\<open>a || b\<close> on an optional string.\<close>

definition or_else :: "string option \<Rightarrow> string \<Rightarrow> string" where
  "or_else v d = (case v of None \<Rightarrow> d | Some s \<Rightarrow> if s = [] then d else s)"






section \<open>Auth service\<close>

definition API_PREFIX :: string where
  "API_PREFIX = ''/api/v1''"

datatype token_type = bearer

record AuthResponse =
  access_token :: string
  token_type :: token_type

text \<open>The request \<^verbatim>\<open>login\<close> sends.\<close>

definition login_request :: "string \<Rightarrow> string \<Rightarrow> string \<Rightarrow> Request" where
  "login_request NEXT_PUBLIC_API_URL email password =
     (let formData = [];
          formData = formData @ [(''username'', email)];
          formData = formData @ [(''password'', password)]
      in \<lparr>request_url = NEXT_PUBLIC_API_URL @ API_PREFIX @ ''/auth/login'',
          request_method = ''POST'',
          request_headers = [''Content-Type'' \<mapsto> ''application/x-www-form-urlencoded''],
          request_body = Some (URLSearchParams formData),
          request_credentials = ''include''\<rparr>)"

text \<open>
  What \<^verbatim>\<open>login\<close> reads of a parsed body: the value, of the declared type of
  \<^verbatim>\<open>data\<close>, and its \<^verbatim>\<open>detail\<close> member, a string when the member exists.
\<close>

record 'a parsed_body =
  body_detail :: "string option"
  body_value :: 'a

text \<open>\<^verbatim>\<open>login\<close>: the outcome and the window afterwards.\<close>

definition login ::
  "string \<Rightarrow> (Request \<Rightarrow> AuthResponse parsed_body Response option) \<Rightarrow> string \<Rightarrow> string
     \<Rightarrow> browser option \<Rightarrow> ('n thrown + AuthResponse) \<times> browser option" where
  "login NEXT_PUBLIC_API_URL fetch email password window =
     (case fetch (login_request NEXT_PUBLIC_API_URL email password) of
        None \<Rightarrow> (Inl TypeError, window)
      | Some response \<Rightarrow>
          if \<not> response_ok response then
            (let error = (case response_json response of
                            None \<Rightarrow> None
                          | Some b \<Rightarrow> body_detail b)
             in (Inl (Thrown_Error (or_else error ''Login failed'')), window))
          else (case response_json response of
                  None \<Rightarrow> (Inl SyntaxError, window)
                | Some b \<Rightarrow>
                    (let data = body_value b
                     in (Inr data, setToken (access_token data) window))))"

section \<open>Decoding a token on the client\<close>

text \<open>\<^verbatim>\<open>s.split(d)\<close> for a one-character separator: never the empty array.\<close>

fun split_on :: "char \<Rightarrow> string \<Rightarrow> string list" where
  "split_on d [] = [[]]"
| "split_on d (c # cs) =
     (if c = d then [] # split_on d cs
      else (case split_on d cs of [] \<Rightarrow> [[c]] | x # xs \<Rightarrow> (c # x) # xs))"

text \<open>
  \<^verbatim>\<open>atob\<close> is the platform's forgiving base64 decoder: ASCII whitespace is dropped,
  one or two trailing \<^verbatim>\<open>=\<close> are dropped when the length is a multiple of four, a
  length of one modulo four or a character outside the alphabet makes it throw
  (\<open>None\<close>), and the remaining characters are read six bits at a time.
\<close>

definition is_ascii_whitespace :: "char \<Rightarrow> bool" where
  "is_ascii_whitespace c = (c \<in> set [CHR 0x09, CHR 0x0A, CHR 0x0C, CHR 0x0D, CHR 0x20])"

definition base64_alphabet :: string where
  "base64_alphabet = ''ABCDEFGHIJKLMNOPQRSTUVWXYZabcdefghijklmnopqrstuvwxyz0123456789+/''"

text \<open>The position of a character in a string, counted from \<open>i\<close>.\<close>

fun index_from :: "nat \<Rightarrow> string \<Rightarrow> char \<Rightarrow> nat option" where
  "index_from i [] c = None"
| "index_from i (a # as) c = (if a = c then Some i else index_from (i + 1) as c)"

definition strip_padding :: "string \<Rightarrow> string" where
  "strip_padding d =
     (if 2 \<le> length d \<and> drop (length d - 2) d = ''=='' then take (length d - 2) d
      else if 1 \<le> length d \<and> drop (length d - 1) d = ''='' then take (length d - 1) d
      else d)"

text \<open>The character whose code is the low eight bits of \<open>n\<close>.\<close>

definition byte :: "nat \<Rightarrow> char" where
  "byte n = Char (odd n) (odd (n div 2)) (odd (n div 4)) (odd (n div 8))
                 (odd (n div 16)) (odd (n div 32)) (odd (n div 64)) (odd (n div 128))"

fun decode_sextets :: "nat list \<Rightarrow> string" where
  "decode_sextets (a # b # c # d # rest) =
     (let n = ((a * 64 + b) * 64 + c) * 64 + d
      in byte (n div 65536) # byte (n div 256) # byte n # decode_sextets rest)"
| "decode_sextets [a, b, c] =
     (let n = ((a * 64 + b) * 64 + c) div 4 in [byte (n div 256), byte n])"
| "decode_sextets [a, b] = [byte ((a * 64 + b) div 16)]"
| "decode_sextets _ = []"

definition atob :: "string \<Rightarrow> string option" where
  "atob data =
     (let d = filter (\<lambda>c. \<not> is_ascii_whitespace c) data;
          d = (if length d mod 4 = 0 then strip_padding d else d)
      in if length d mod 4 = 1 then None
         else map_option decode_sextets (those (map (index_from 0 base64_alphabet) d)))"

record TokenPayload =
  sub :: string
  exp :: int

text \<open>
  \<^verbatim>\<open>decodeToken\<close>. \<^verbatim>\<open>JSON.parse\<close> is a parameter: \<open>None\<close> when it throws,
  \<open>Some None\<close> for the JSON value \<^verbatim>\<open>null\<close>, \<open>Some (Some p)\<close> for a payload of
  the declared return type. With fewer than two segments \<^verbatim>\<open>split(".")[1]\<close> is
  \<^verbatim>\<open>undefined\<close>, which \<^verbatim>\<open>atob\<close> receives as the string \<^verbatim>\<open>"undefined"\<close>. The
  \<^verbatim>\<open>catch\<close> turns every exception into \<^verbatim>\<open>null\<close>.
\<close>

definition decodeToken :: "(string \<Rightarrow> TokenPayload option option) \<Rightarrow> string \<Rightarrow> TokenPayload option" where
  "decodeToken JSON_parse token =
     (let base64Payload = (case split_on CHR ''.'' token of
                             _ # seg # _ \<Rightarrow> seg
                           | _ \<Rightarrow> ''undefined'')
      in case atob base64Payload of
           None \<Rightarrow> None
         | Some payload \<Rightarrow> (case JSON_parse payload of None \<Rightarrow> None | Some v \<Rightarrow> v))"

text \<open>\<^verbatim>\<open>isTokenExpired\<close>; \<open>now\<close> is \<^verbatim>\<open>Date.now()\<close>, in milliseconds.\<close>

definition isTokenExpired :: "(string \<Rightarrow> TokenPayload option option) \<Rightarrow> int \<Rightarrow> string \<Rightarrow> bool" where
  "isTokenExpired JSON_parse now token =
     (case decodeToken JSON_parse token of
        None \<Rightarrow> True
      | Some payload \<Rightarrow> now \<ge> (exp payload * 1000) - 60000)"

section \<open>Tenant-scoped store\<close>

text \<open>
  The tenant-scoped data layer (\<^verbatim>\<open>app/crud/base.py\<close>, the class \<^verbatim>\<open>CRUDBase\<close>
  that every backend query has to go through) is not among the sources. What follows
  is its contract as section 4.4 of the spec gives it: every tenant-owned record
  carries exactly one organization id; on read and list the organization id is ANDed
  into the query and the caller's filter composes with it; \<^verbatim>\<open>list\<close> returns the
  items, a total counted under the same scoped filter, and the echoed skip and limit;
  \<^verbatim>\<open>get\<close> of an id that is absent in the caller's scope fails with
  \<^verbatim>\<open>NotFound\<close>.
\<close>

text \<open>Modelled from the spec: the failure kinds of section 7, whose declaration in the
  backend is missing from the sources.\<close>

datatype failure =
  InvalidCredentials | InvalidToken | ExpiredToken | Unauthenticated
  | Unauthorized string | NotAMember | NotFound | ValidationError

text \<open>Modelled from the spec: a tenant-owned record of the missing data layer, with its
  id, its one organization id and the rest of it.\<close>

record 'p entity =
  entity_id :: string
  organization_id :: string
  payload :: 'p

text \<open>Modelled from the spec: the persisted records of the missing data layer, by
  entity type.\<close>

type_synonym 'p store = "string \<Rightarrow> 'p entity list"

text \<open>Modelled from the spec: the paginated list response
  \<^verbatim>\<open>{items, total, skip, limit}\<close> of the missing \<^verbatim>\<open>CRUDBase\<close>.\<close>

record 'p page =
  items :: "'p entity list"
  total :: nat
  skip :: nat
  limit :: nat

text \<open>Modelled from the spec: the query the missing \<^verbatim>\<open>CRUDBase\<close> runs on a read,
  the organization id ANDed with what the caller asks for.\<close>

definition scoped :: "string \<Rightarrow> ('p entity \<Rightarrow> bool) \<Rightarrow> 'p entity \<Rightarrow> bool" where
  "scoped organizationId flt e = (organization_id e = organizationId \<and> flt e)"

text \<open>Modelled from the spec: \<^verbatim>\<open>list(entityType, organizationId, filter, skip, limit)\<close>
  of the missing \<^verbatim>\<open>CRUDBase\<close>. The caller's filter is any predicate on records.\<close>

definition store_list ::
  "'p store \<Rightarrow> string \<Rightarrow> string \<Rightarrow> ('p entity \<Rightarrow> bool) \<Rightarrow> nat \<Rightarrow> nat \<Rightarrow> 'p page" where
  "store_list db entityType organizationId flt sk lim =
     (let rows = filter (scoped organizationId flt) (db entityType)
      in \<lparr>items = take lim (drop sk rows), total = length rows, skip = sk, limit = lim\<rparr>)"

text \<open>Modelled from the spec: \<^verbatim>\<open>get(entityType, organizationId, id)\<close> of the
  missing \<^verbatim>\<open>CRUDBase\<close>, the first record of that id in the caller's scope.\<close>

definition store_get :: "'p store \<Rightarrow> string \<Rightarrow> string \<Rightarrow> string \<Rightarrow> failure + 'p entity" where
  "store_get db entityType organizationId i =
     (case find (scoped organizationId (\<lambda>e. entity_id e = i)) (db entityType) of
        None \<Rightarrow> Inl NotFound
      | Some e \<Rightarrow> Inr e)"

section \<open>Substring containment and the locale of a path\<close>

lemma startsWith_iff: "startsWith s pat \<longleftrightarrow> (\<exists>suf. s = pat @ suf)"
  unfolding startsWith_def
  by (metis append_eq_conv_conj append_take_drop_id)

lemma str_includes_iff: "str_includes s pat \<longleftrightarrow> (\<exists>pre suf. s = pre @ pat @ suf)"
proof (induction s)
  case Nil
  show ?case by auto
next
  case (Cons c cs)
  show ?case
  proof
    assume "str_includes (c # cs) pat"
    then consider "startsWith (c # cs) pat" | "str_includes cs pat" by auto
    then show "\<exists>pre suf. c # cs = pre @ pat @ suf"
    proof cases
      case 1
      then obtain suf where "c # cs = pat @ suf" by (auto simp: startsWith_iff)
      then have "c # cs = [] @ pat @ suf" by simp
      then show ?thesis by blast
    next
      case 2
      with Cons.IH obtain pre suf where "cs = pre @ pat @ suf" by blast
      then have "c # cs = (c # pre) @ pat @ suf" by simp
      then show ?thesis by blast
    qed
  next
    assume "\<exists>pre suf. c # cs = pre @ pat @ suf"
    then obtain pre suf where eq: "c # cs = pre @ pat @ suf" by blast
    show "str_includes (c # cs) pat"
    proof (cases pre)
      case Nil
      with eq have "startsWith (c # cs) pat" by (auto simp: startsWith_iff)
      then show ?thesis by simp
    next
      case (Cons p ps)
      with eq have "cs = ps @ pat @ suf" by simp
      with Cons.IH have "str_includes cs pat" by blast
      then show ?thesis by simp
    qed
  qed
qed

lemma str_includes_length: "str_includes s pat \<Longrightarrow> length pat \<le> length s"
  by (auto simp: str_includes_iff)

lemma isProtectedRoute_iff:
  "isProtectedRoute p \<longleftrightarrow> str_includes p ''/dashboard'' \<or> str_includes p ''/admin''"
  by (simp add: isProtectedRoute_def PROTECTED_PATTERNS_def)

lemma isAuthRoute_iff:
  "isAuthRoute p \<longleftrightarrow> str_includes p ''/signin'' \<or> str_includes p ''/signup'' \<or> str_includes p ''/login''"
  by (simp add: isAuthRoute_def AUTH_ROUTES_def)

lemma route_length: "isProtectedRoute p \<or> isAuthRoute p \<Longrightarrow> 6 \<le> length p"
  by (auto simp: isProtectedRoute_iff isAuthRoute_iff dest: str_includes_length)

lemma is_a_z_letter: "is_a_z c \<Longrightarrow> is_letter c"
  by (simp add: is_a_z_def is_letter_def)

lemma is_a_z_not_slash: "is_a_z c \<Longrightarrow> c \<noteq> CHR ''/''"
  by (auto simp: is_a_z_def)

lemma localeMatch_leading:
  assumes "localeMatch p = Some l"
  shows "spec_leading_locale p = Some l \<and> list_all is_a_z l"
proof -
  obtain c0 a b c3 rest where p: "p = c0 # a # b # c3 # rest"
    using assms by (cases p rule: localeMatch.cases) auto
  from assms have m: "c0 = CHR ''/''" "is_a_z a" "is_a_z b" "c3 = CHR ''/''" "l = [a, b]"
    by (auto simp: p split: if_splits)
  from m have "takeWhile (\<lambda>x. x \<noteq> CHR ''/'') (a # b # c3 # rest) = [a, b]"
    by (simp add: is_a_z_not_slash)
  with m show ?thesis
    by (simp add: p spec_leading_locale_def spec_leading_segment_def is_a_z_letter)
qed

lemma leading_lower_localeMatch:
  assumes "spec_leading_locale p = Some l" "list_all is_a_z l" "4 \<le> length p"
  shows "localeMatch p = Some l"
proof -
  obtain c0 a b c3 rest where p: "p = c0 # a # b # c3 # rest"
    using assms(3) by (cases p rule: localeMatch.cases) auto
  from assms(1) have c0: "c0 = CHR ''/''" and
    tw: "takeWhile (\<lambda>x. x \<noteq> CHR ''/'') (a # b # c3 # rest) = l" and
    len: "length l = 2"
    by (auto simp: p spec_leading_locale_def spec_leading_segment_def split: if_splits)
  from tw len have "a \<noteq> CHR ''/''" "b \<noteq> CHR ''/''" "c3 = CHR ''/''" "l = [a, b]"
    by (auto split: if_splits)
  with assms(2) c0 show ?thesis by (simp add: p)
qed

lemma locale_of_amended:
  assumes "isProtectedRoute p \<or> isAuthRoute p"
  shows "locale_of p = amended_locale p"
proof -
  have len: "4 \<le> length p" using assms route_length by fastforce
  show ?thesis
  proof (cases "localeMatch p")
    case (Some l)
    then show ?thesis
      using localeMatch_leading [OF Some] by (simp add: locale_of_def amended_locale_def)
  next
    case None
    have "amended_locale p = ''en''"
    proof (cases "spec_leading_locale p")
      case None
      then show ?thesis by (simp add: amended_locale_def)
    next
      case (Some l)
      have "\<not> list_all is_a_z l"
        using leading_lower_localeMatch [OF Some _ len] \<open>localeMatch p = None\<close> by auto
      with Some show ?thesis by (simp add: amended_locale_def)
    qed
    with None show ?thesis by (simp add: locale_of_def)
  qed
qed

section \<open>The decisions of the middleware\<close>

lemma middleware_unfold:
  "middleware r =
     (if isProtectedRoute (nextUrl_pathname r) \<and> \<not> truthy (cookies r TOKEN_KEY_middleware) then
        NextResponse_redirect
          \<lparr>base = url r, path = ''/'' @ locale_of (nextUrl_pathname r) @ ''/signin'',
             searchParams = [(''callbackUrl'', nextUrl_pathname r)]\<rparr>
      else if isAuthRoute (nextUrl_pathname r) \<and> truthy (cookies r TOKEN_KEY_middleware) then
        NextResponse_redirect
          \<lparr>base = url r, path = ''/'' @ locale_of (nextUrl_pathname r) @ ''/dashboard'',
             searchParams = []\<rparr>
      else NextResponse_next)"
  by (simp add: middleware_def Let_def searchParams_set_def new_URL_def)

lemma en_dashboard_routes:
  "isProtectedRoute ''/en/dashboard''" "\<not> isAuthRoute ''/en/dashboard''"
  "locale_of ''/en/dashboard'' = ''en''"
  by (simp_all add: isProtectedRoute_def isAuthRoute_def PROTECTED_PATTERNS_def AUTH_ROUTES_def
        startsWith_def locale_of_def is_a_z_def)

lemma en_signin_routes:
  "\<not> isProtectedRoute ''/en/signin''" "isAuthRoute ''/en/signin''"
  "locale_of ''/en/signin'' = ''en''"
  by (simp_all add: isProtectedRoute_def isAuthRoute_def PROTECTED_PATTERNS_def AUTH_ROUTES_def
        startsWith_def locale_of_def is_a_z_def)

text \<open>
  Claim C4. For every request the middleware decides in this order: a protected path
  without a credential is redirected to the sign-in page of the path's locale, with
  the search parameter \<^verbatim>\<open>callbackUrl\<close> set to the original path; otherwise an
  auth-entry path with a credential is redirected to the dashboard of the path's
  locale; otherwise the request continues. A credential is present when the cookie
  \<^verbatim>\<open>inopsio_token\<close> has a non-empty value. In particular \<^verbatim>\<open>/en/dashboard\<close> without
  a credential goes to \<^verbatim>\<open>/en/signin\<close> with \<^verbatim>\<open>callbackUrl = /en/dashboard\<close>,
  \<^verbatim>\<open>/en/signin\<close> with a credential goes to \<^verbatim>\<open>/en/dashboard\<close>, and
  \<^verbatim>\<open>/en/dashboard\<close> with a credential passes through. The target is the
  \<^verbatim>\<open>URL\<close> object handed to \<^verbatim>\<open>NextResponse.redirect\<close>: its path and the
  parameter as set.
\<close>

theorem middleware_priority_order:
  "(isProtectedRoute (nextUrl_pathname r) \<and> \<not> truthy (cookies r TOKEN_KEY_middleware) \<longrightarrow>
      middleware r = NextResponse_redirect
        \<lparr>base = url r, path = ''/'' @ locale_of (nextUrl_pathname r) @ ''/signin'',
           searchParams = [(''callbackUrl'', nextUrl_pathname r)]\<rparr>)
   \<and> (\<not> (isProtectedRoute (nextUrl_pathname r) \<and> \<not> truthy (cookies r TOKEN_KEY_middleware))
        \<and> isAuthRoute (nextUrl_pathname r) \<and> truthy (cookies r TOKEN_KEY_middleware) \<longrightarrow>
      middleware r = NextResponse_redirect
        \<lparr>base = url r, path = ''/'' @ locale_of (nextUrl_pathname r) @ ''/dashboard'',
           searchParams = []\<rparr>)
   \<and> (\<not> (isProtectedRoute (nextUrl_pathname r) \<and> \<not> truthy (cookies r TOKEN_KEY_middleware))
        \<and> \<not> (isAuthRoute (nextUrl_pathname r) \<and> truthy (cookies r TOKEN_KEY_middleware)) \<longrightarrow>
      middleware r = NextResponse_next)
   \<and> (\<not> truthy (c TOKEN_KEY_middleware) \<longrightarrow>
      middleware \<lparr>nextUrl_pathname = ''/en/dashboard'', cookies = c, url = u\<rparr> =
        NextResponse_redirect
          \<lparr>base = u, path = ''/en/signin'', searchParams = [(''callbackUrl'', ''/en/dashboard'')]\<rparr>)
   \<and> (truthy (c TOKEN_KEY_middleware) \<longrightarrow>
      middleware \<lparr>nextUrl_pathname = ''/en/signin'', cookies = c, url = u\<rparr> =
        NextResponse_redirect \<lparr>base = u, path = ''/en/dashboard'', searchParams = []\<rparr>)
   \<and> (truthy (c TOKEN_KEY_middleware) \<longrightarrow>
      middleware \<lparr>nextUrl_pathname = ''/en/dashboard'', cookies = c, url = u\<rparr> =
        NextResponse_next)"
proof -
  let ?p = "nextUrl_pathname r" and ?cred = "truthy (cookies r TOKEN_KEY_middleware)"
  have first: "isProtectedRoute ?p \<and> \<not> ?cred \<longrightarrow>
      middleware r = NextResponse_redirect
        \<lparr>base = url r, path = ''/'' @ locale_of ?p @ ''/signin'',
           searchParams = [(''callbackUrl'', ?p)]\<rparr>"
    by (simp add: middleware_unfold)
  have second: "\<not> (isProtectedRoute ?p \<and> \<not> ?cred) \<and> isAuthRoute ?p \<and> ?cred \<longrightarrow>
      middleware r = NextResponse_redirect
        \<lparr>base = url r, path = ''/'' @ locale_of ?p @ ''/dashboard'', searchParams = []\<rparr>"
    by (simp add: middleware_unfold)
  have third: "\<not> (isProtectedRoute ?p \<and> \<not> ?cred) \<and> \<not> (isAuthRoute ?p \<and> ?cred) \<longrightarrow>
      middleware r = NextResponse_next"
    by (simp add: middleware_unfold)
  have dashboard_anonymous: "\<not> truthy (c TOKEN_KEY_middleware) \<longrightarrow>
      middleware \<lparr>nextUrl_pathname = ''/en/dashboard'', cookies = c, url = u\<rparr> =
        NextResponse_redirect
          \<lparr>base = u, path = ''/en/signin'', searchParams = [(''callbackUrl'', ''/en/dashboard'')]\<rparr>"
    by (simp add: middleware_unfold en_dashboard_routes)
  have signin_authenticated: "truthy (c TOKEN_KEY_middleware) \<longrightarrow>
      middleware \<lparr>nextUrl_pathname = ''/en/signin'', cookies = c, url = u\<rparr> =
        NextResponse_redirect \<lparr>base = u, path = ''/en/dashboard'', searchParams = []\<rparr>"
    by (simp add: middleware_unfold en_signin_routes)
  have dashboard_authenticated: "truthy (c TOKEN_KEY_middleware) \<longrightarrow>
      middleware \<lparr>nextUrl_pathname = ''/en/dashboard'', cookies = c, url = u\<rparr> =
        NextResponse_next"
    by (simp add: middleware_unfold en_dashboard_routes)
  from first second third dashboard_anonymous signin_authenticated dashboard_authenticated
  show ?thesis by blast
qed

theorem middleware_priority_order_witness:
  "isProtectedRoute ''/fr/admin/users'' \<and> \<not> truthy (Map.empty TOKEN_KEY_middleware)
   \<and> middleware \<lparr>nextUrl_pathname = ''/fr/admin/users'', cookies = Map.empty,
        url = ''https://app.example/fr/admin/users''\<rparr> =
      NextResponse_redirect
        \<lparr>base = ''https://app.example/fr/admin/users'', path = ''/fr/signin'',
           searchParams = [(''callbackUrl'', ''/fr/admin/users'')]\<rparr>
   \<and> truthy ([TOKEN_KEY_middleware \<mapsto> ''t''] TOKEN_KEY_middleware)
   \<and> middleware \<lparr>nextUrl_pathname = ''/en/signin'', cookies = [TOKEN_KEY_middleware \<mapsto> ''t''],
        url = ''https://app.example/en/signin''\<rparr> =
      NextResponse_redirect
        \<lparr>base = ''https://app.example/en/signin'', path = ''/en/dashboard'', searchParams = []\<rparr>"
  using middleware_priority_order
    [of "\<lparr>nextUrl_pathname = ''/fr/admin/users'', cookies = Map.empty,
          url = ''https://app.example/fr/admin/users''\<rparr>"
        "[TOKEN_KEY_middleware \<mapsto> ''t'']" "''https://app.example/en/signin''"]
  by (simp add: isProtectedRoute_def PROTECTED_PATTERNS_def startsWith_def truthy_def
        locale_of_def is_a_z_def)

text \<open>
  The claim C5 as written keeps every leading two-letter segment. The source's pattern
  \<^verbatim>\<open>[a-z]{2}\<close> takes lower-case letters only: \<^verbatim>\<open>/FR/dashboard\<close> has the leading
  two-letter segment \<^verbatim>\<open>FR\<close>, and without a credential it is redirected to
  \<^verbatim>\<open>/en/signin\<close>, not to \<^verbatim>\<open>/FR/signin\<close>.
\<close>

theorem redirect_locale_counterexample:
  "spec_leading_locale ''/FR/dashboard'' = Some ''FR''
   \<and> middleware \<lparr>nextUrl_pathname = ''/FR/dashboard'', cookies = Map.empty, url = ''u''\<rparr> =
       NextResponse_redirect
         \<lparr>base = ''u'', path = ''/en/signin'',
            searchParams = [(''callbackUrl'', ''/FR/dashboard'')]\<rparr>
   \<and> ''/en/signin'' \<noteq> ''/'' @ ''FR'' @ ''/signin''"
  by (simp add: middleware_unfold isProtectedRoute_def PROTECTED_PATTERNS_def startsWith_def
        truthy_def locale_of_def is_a_z_def is_letter_def spec_leading_locale_def
        spec_leading_segment_def)

text \<open>
  Claim C5, amended. Whenever the middleware redirects, the target's path starts with
  the leading locale segment of the request path when that segment is two lower-case
  letters (\<^verbatim>\<open>a\<close> to \<^verbatim>\<open>z\<close>), and with the default locale \<^verbatim>\<open>en\<close> otherwise:
  when the path has no leading two-letter segment, and when one of the two letters is
  upper-case. So a protected path without a locale segment and without a credential is
  redirected to \<^verbatim>\<open>/en/signin\<close> with \<^verbatim>\<open>callbackUrl\<close> set to the original path.
  The source's pattern also asks for a slash after the segment, which every redirected
  path has.
\<close>

theorem redirect_keeps_locale:
  "(middleware r = NextResponse_redirect target \<longrightarrow>
      (path target = ''/'' @ amended_locale (nextUrl_pathname r) @ ''/signin''
       \<or> path target = ''/'' @ amended_locale (nextUrl_pathname r) @ ''/dashboard''))
   \<and> (\<forall>l. spec_leading_locale (nextUrl_pathname r) = Some l \<and> list_all is_a_z l \<longrightarrow>
         amended_locale (nextUrl_pathname r) = l)
   \<and> (\<forall>l. spec_leading_locale (nextUrl_pathname r) = Some l \<and> \<not> list_all is_a_z l \<longrightarrow>
         amended_locale (nextUrl_pathname r) = ''en'')
   \<and> (spec_leading_locale (nextUrl_pathname r) = None \<longrightarrow>
         amended_locale (nextUrl_pathname r) = ''en'')
   \<and> (isProtectedRoute (nextUrl_pathname r) \<and> \<not> truthy (cookies r TOKEN_KEY_middleware)
        \<and> spec_leading_locale (nextUrl_pathname r) = None \<longrightarrow>
      middleware r = NextResponse_redirect
        \<lparr>base = url r, path = ''/en/signin'',
           searchParams = [(''callbackUrl'', nextUrl_pathname r)]\<rparr>)"
proof -
  let ?p = "nextUrl_pathname r"
  have a: "middleware r = NextResponse_redirect target \<longrightarrow>
      (path target = ''/'' @ amended_locale ?p @ ''/signin''
       \<or> path target = ''/'' @ amended_locale ?p @ ''/dashboard'')"
  proof
    assume m: "middleware r = NextResponse_redirect target"
    then have "isProtectedRoute ?p \<or> isAuthRoute ?p"
      by (auto simp: middleware_unfold split: if_splits)
    then have "locale_of ?p = amended_locale ?p" by (rule locale_of_amended)
    with m show "path target = ''/'' @ amended_locale ?p @ ''/signin''
       \<or> path target = ''/'' @ amended_locale ?p @ ''/dashboard''"
      by (auto simp: middleware_unfold split: if_splits)
  qed
  have b: "\<forall>l. spec_leading_locale ?p = Some l \<and> list_all is_a_z l \<longrightarrow> amended_locale ?p = l"
    by (simp add: amended_locale_def)
  have b': "\<forall>l. spec_leading_locale ?p = Some l \<and> \<not> list_all is_a_z l \<longrightarrow>
      amended_locale ?p = ''en''"
    by (simp add: amended_locale_def)
  have c: "spec_leading_locale ?p = None \<longrightarrow> amended_locale ?p = ''en''"
    by (simp add: amended_locale_def)
  have d: "isProtectedRoute ?p \<and> \<not> truthy (cookies r TOKEN_KEY_middleware)
        \<and> spec_leading_locale ?p = None \<longrightarrow>
      middleware r = NextResponse_redirect
        \<lparr>base = url r, path = ''/en/signin'', searchParams = [(''callbackUrl'', ?p)]\<rparr>"
  proof
    assume h: "isProtectedRoute ?p \<and> \<not> truthy (cookies r TOKEN_KEY_middleware)
        \<and> spec_leading_locale ?p = None"
    then have "locale_of ?p = amended_locale ?p" by (simp add: locale_of_amended)
    with h show "middleware r = NextResponse_redirect
        \<lparr>base = url r, path = ''/en/signin'', searchParams = [(''callbackUrl'', ?p)]\<rparr>"
      by (simp add: middleware_unfold amended_locale_def)
  qed
  from a b b' c d show ?thesis by blast
qed

theorem redirect_keeps_locale_witness:
  "middleware \<lparr>nextUrl_pathname = ''/de/dashboard/reports'', cookies = Map.empty, url = ''u''\<rparr> =
     NextResponse_redirect
       \<lparr>base = ''u'', path = ''/de/signin'',
          searchParams = [(''callbackUrl'', ''/de/dashboard/reports'')]\<rparr>
   \<and> spec_leading_locale ''/de/dashboard/reports'' = Some ''de''
   \<and> list_all is_a_z ''de''
   \<and> amended_locale ''/de/dashboard/reports'' = ''de''
   \<and> isProtectedRoute ''/dashboard'' \<and> \<not> truthy (Map.empty TOKEN_KEY_middleware)
   \<and> spec_leading_locale ''/dashboard'' = None
   \<and> middleware \<lparr>nextUrl_pathname = ''/dashboard'', cookies = Map.empty, url = ''u''\<rparr> =
     NextResponse_redirect
       \<lparr>base = ''u'', path = ''/en/signin'', searchParams = [(''callbackUrl'', ''/dashboard'')]\<rparr>"
proof -
  have de: "spec_leading_locale ''/de/dashboard/reports'' = Some ''de''" "list_all is_a_z ''de''"
    by (simp_all add: spec_leading_locale_def spec_leading_segment_def is_letter_def is_a_z_def)
  have m: "middleware \<lparr>nextUrl_pathname = ''/de/dashboard/reports'', cookies = Map.empty,
        url = ''u''\<rparr> =
     NextResponse_redirect
       \<lparr>base = ''u'', path = ''/de/signin'',
          searchParams = [(''callbackUrl'', ''/de/dashboard/reports'')]\<rparr>"
    by (simp add: middleware_unfold isProtectedRoute_def PROTECTED_PATTERNS_def startsWith_def
          truthy_def locale_of_def is_a_z_def)
  have root: "isProtectedRoute ''/dashboard''" "\<not> truthy (Map.empty TOKEN_KEY_middleware)"
    "spec_leading_locale ''/dashboard'' = None"
    by (simp_all add: isProtectedRoute_def PROTECTED_PATTERNS_def startsWith_def truthy_def
          spec_leading_locale_def spec_leading_segment_def)
  show ?thesis
    using redirect_keeps_locale
        [of "\<lparr>nextUrl_pathname = ''/de/dashboard/reports'', cookies = Map.empty, url = ''u''\<rparr>"
            "\<lparr>base = ''u'', path = ''/de/signin'',
               searchParams = [(''callbackUrl'', ''/de/dashboard/reports'')]\<rparr>"]
      redirect_keeps_locale
        [of "\<lparr>nextUrl_pathname = ''/dashboard'', cookies = Map.empty, url = ''u''\<rparr>"]
      de m root
    by simp
qed

text \<open>
  Claim C10. The middleware classifies a path by containment, not by its leading
  segment: a path is protected exactly when \<^verbatim>\<open>/dashboard\<close> or \<^verbatim>\<open>/admin\<close> occurs
  anywhere in it, and an auth-entry path exactly when \<^verbatim>\<open>/signin\<close>,
  \<^verbatim>\<open>/signup\<close> or \<^verbatim>\<open>/login\<close> occurs anywhere in it; a protected path without a
  credential is redirected to the sign-in page and an auth-entry path with a
  credential to the dashboard. For example \<^verbatim>\<open>/en/blog/admin-tips\<close> without a
  credential is redirected to \<^verbatim>\<open>/en/signin\<close>.
\<close>

theorem classification_by_containment:
  "(isProtectedRoute p \<longleftrightarrow>
      (\<exists>pre suf. p = pre @ ''/dashboard'' @ suf) \<or> (\<exists>pre suf. p = pre @ ''/admin'' @ suf))
   \<and> (isAuthRoute p \<longleftrightarrow>
      (\<exists>pre suf. p = pre @ ''/signin'' @ suf) \<or> (\<exists>pre suf. p = pre @ ''/signup'' @ suf)
      \<or> (\<exists>pre suf. p = pre @ ''/login'' @ suf))
   \<and> (isProtectedRoute (nextUrl_pathname r) \<and> \<not> truthy (cookies r TOKEN_KEY_middleware) \<longrightarrow>
      (\<exists>target. middleware r = NextResponse_redirect target
         \<and> path target = ''/'' @ locale_of (nextUrl_pathname r) @ ''/signin''))
   \<and> (isAuthRoute (nextUrl_pathname r) \<and> truthy (cookies r TOKEN_KEY_middleware) \<longrightarrow>
      (\<exists>target. middleware r = NextResponse_redirect target
         \<and> path target = ''/'' @ locale_of (nextUrl_pathname r) @ ''/dashboard''))
   \<and> (\<not> truthy (c TOKEN_KEY_middleware) \<longrightarrow>
      middleware \<lparr>nextUrl_pathname = ''/en/blog/admin-tips'', cookies = c, url = u\<rparr> =
        NextResponse_redirect
          \<lparr>base = u, path = ''/en/signin'',
             searchParams = [(''callbackUrl'', ''/en/blog/admin-tips'')]\<rparr>)"
proof -
  have a: "isProtectedRoute p \<longleftrightarrow>
      (\<exists>pre suf. p = pre @ ''/dashboard'' @ suf) \<or> (\<exists>pre suf. p = pre @ ''/admin'' @ suf)"
    unfolding isProtectedRoute_iff str_includes_iff ..
  have b: "isAuthRoute p \<longleftrightarrow>
      (\<exists>pre suf. p = pre @ ''/signin'' @ suf) \<or> (\<exists>pre suf. p = pre @ ''/signup'' @ suf)
      \<or> (\<exists>pre suf. p = pre @ ''/login'' @ suf)"
    unfolding isAuthRoute_iff str_includes_iff ..
  have c: "isProtectedRoute (nextUrl_pathname r) \<and> \<not> truthy (cookies r TOKEN_KEY_middleware) \<longrightarrow>
      (\<exists>target. middleware r = NextResponse_redirect target
         \<and> path target = ''/'' @ locale_of (nextUrl_pathname r) @ ''/signin'')"
    by (simp add: middleware_unfold)
  have d: "isAuthRoute (nextUrl_pathname r) \<and> truthy (cookies r TOKEN_KEY_middleware) \<longrightarrow>
      (\<exists>target. middleware r = NextResponse_redirect target
         \<and> path target = ''/'' @ locale_of (nextUrl_pathname r) @ ''/dashboard'')"
    by (simp add: middleware_unfold)
  have e: "\<not> truthy (c TOKEN_KEY_middleware) \<longrightarrow>
      middleware \<lparr>nextUrl_pathname = ''/en/blog/admin-tips'', cookies = c, url = u\<rparr> =
        NextResponse_redirect
          \<lparr>base = u, path = ''/en/signin'',
             searchParams = [(''callbackUrl'', ''/en/blog/admin-tips'')]\<rparr>"
    by (simp add: middleware_unfold isProtectedRoute_def PROTECTED_PATTERNS_def startsWith_def
          locale_of_def is_a_z_def)
  from a b c d e show ?thesis by blast
qed

theorem classification_by_containment_witness:
  "(\<exists>pre suf. ''/shop/login-help'' = pre @ ''/login'' @ suf)
   \<and> isAuthRoute ''/shop/login-help''
   \<and> truthy ([TOKEN_KEY_middleware \<mapsto> ''t''] TOKEN_KEY_middleware)
   \<and> (\<exists>target. middleware \<lparr>nextUrl_pathname = ''/shop/login-help'',
          cookies = [TOKEN_KEY_middleware \<mapsto> ''t''], url = ''u''\<rparr> = NextResponse_redirect target
        \<and> path target = ''/en/dashboard'')
   \<and> \<not> truthy (Map.empty TOKEN_KEY_middleware)
   \<and> middleware \<lparr>nextUrl_pathname = ''/en/blog/admin-tips'', cookies = Map.empty, url = ''u''\<rparr> =
        NextResponse_redirect
          \<lparr>base = ''u'', path = ''/en/signin'',
             searchParams = [(''callbackUrl'', ''/en/blog/admin-tips'')]\<rparr>"
proof -
  have ex: "\<exists>pre suf. ''/shop/login-help'' = pre @ ''/login'' @ suf"
  proof -
    have "''/shop/login-help'' = ''/shop'' @ ''/login'' @ ''-help''" by simp
    then show ?thesis by blast
  qed
  have loc: "locale_of ''/shop/login-help'' = ''en''"
    by (simp add: locale_of_def is_a_z_def)
  have t: "truthy ([TOKEN_KEY_middleware \<mapsto> ''t''] TOKEN_KEY_middleware)"
    "\<not> truthy (Map.empty TOKEN_KEY_middleware)"
    by (simp_all add: truthy_def)
  show ?thesis
    using classification_by_containment
      [of "''/shop/login-help''"
          "\<lparr>nextUrl_pathname = ''/shop/login-help'',
             cookies = [TOKEN_KEY_middleware \<mapsto> ''t''], url = ''u''\<rparr>"
          Map.empty "''u''"] ex loc t
    by simp
qed

section \<open>The stored credential\<close>

lemma seven_days: "string_of_nat 604800 = ''604800''"
  by (simp add: string_of_nat.simps digit_char_def)

lemma middleware_reads_one_cookie:
  "nextUrl_pathname r = nextUrl_pathname r' \<Longrightarrow> url r = url r' \<Longrightarrow>
   cookies r TOKEN_KEY_middleware = cookies r' TOKEN_KEY_middleware \<Longrightarrow>
   middleware r = middleware r'"
  by (simp add: middleware_unfold)

lemma middleware_depends_on_cookie:
  assumes "t \<noteq> []" "isProtectedRoute (nextUrl_pathname r) \<or> isAuthRoute (nextUrl_pathname r)"
  shows "middleware (r\<lparr>cookies := (cookies r)(TOKEN_KEY_middleware := None)\<rparr>) \<noteq>
         middleware (r\<lparr>cookies := (cookies r)(TOKEN_KEY_middleware \<mapsto> t)\<rparr>)"
proof (cases "isProtectedRoute (nextUrl_pathname r)")
  case True
  with assms(1) show ?thesis by (simp add: middleware_unfold truthy_def)
next
  case False
  with assms have "isAuthRoute (nextUrl_pathname r)" by simp
  with False assms(1) show ?thesis by (simp add: middleware_unfold truthy_def)
qed

text \<open>
  Claim C8. In a browser, \<^verbatim>\<open>setToken(t)\<close> stores \<open>t\<close> under the key
  \<^verbatim>\<open>inopsio_token\<close> in \<^verbatim>\<open>localStorage\<close> (where \<^verbatim>\<open>getToken\<close> finds it again)
  and assigns to \<^verbatim>\<open>document.cookie\<close> a cookie of the same name with path
  \<^verbatim>\<open>/\<close>, \<^verbatim>\<open>max-age=604800\<close> (seven days in seconds) and
  \<^verbatim>\<open>SameSite=Lax\<close>. That name is the one the middleware reads. It does read it: on
  every protected or auth-entry path the decision with the cookie absent differs from
  the decision with the cookie set to a non-empty \<open>t\<close>; with the cookie \<open>t\<close> a
  protected path that is no auth-entry path passes, and without the cookie a protected
  path is redirected. And it reads nothing else: the decision is a function of the
  path, that cookie and the request's URL alone, so it needs no network call.
\<close>

theorem setToken_mirrors_cookie:
  "setToken t (Some b) =
     Some (b\<lparr>localStorage := (localStorage b)(''inopsio_token'' \<mapsto> t),
             document_cookie := document_cookie b @
               [''inopsio_token='' @ t @ ''; path=/; max-age=604800; SameSite=Lax'']\<rparr>)
   \<and> getToken (setToken t (Some b)) = Some t
   \<and> TOKEN_KEY_middleware = TOKEN_KEY
   \<and> (nextUrl_pathname r = nextUrl_pathname r' \<and> url r = url r'
        \<and> cookies r ''inopsio_token'' = cookies r' ''inopsio_token'' \<longrightarrow>
      middleware r = middleware r')
   \<and> (t \<noteq> [] \<and> (isProtectedRoute (nextUrl_pathname r) \<or> isAuthRoute (nextUrl_pathname r)) \<longrightarrow>
      middleware (r\<lparr>cookies := (cookies r)(''inopsio_token'' := None)\<rparr>) \<noteq>
      middleware (r\<lparr>cookies := (cookies r)(''inopsio_token'' \<mapsto> t)\<rparr>))
   \<and> (t \<noteq> [] \<and> cookies r ''inopsio_token'' = Some t
        \<and> isProtectedRoute (nextUrl_pathname r) \<and> \<not> isAuthRoute (nextUrl_pathname r) \<longrightarrow>
      middleware r = NextResponse_next)
   \<and> (cookies r ''inopsio_token'' = None \<and> isProtectedRoute (nextUrl_pathname r) \<longrightarrow>
      (\<exists>target. middleware r = NextResponse_redirect target))"
proof -
  have a: "setToken t (Some b) =
     Some (b\<lparr>localStorage := (localStorage b)(''inopsio_token'' \<mapsto> t),
             document_cookie := document_cookie b @
               [''inopsio_token='' @ t @ ''; path=/; max-age=604800; SameSite=Lax'']\<rparr>)"
    by (simp add: setToken_def TOKEN_KEY_def seven_days)
  have b: "getToken (setToken t (Some b)) = Some t"
    by (simp add: setToken_def getToken_def)
  have c: "TOKEN_KEY_middleware = TOKEN_KEY"
    by (simp add: TOKEN_KEY_middleware_def TOKEN_KEY_def)
  have k: "TOKEN_KEY_middleware = ''inopsio_token''"
    by (simp add: TOKEN_KEY_middleware_def)
  have d: "nextUrl_pathname r = nextUrl_pathname r' \<and> url r = url r'
        \<and> cookies r ''inopsio_token'' = cookies r' ''inopsio_token'' \<longrightarrow>
      middleware r = middleware r'"
    using middleware_reads_one_cookie [of r r'] by (simp add: k)
  have e: "t \<noteq> [] \<and> (isProtectedRoute (nextUrl_pathname r) \<or> isAuthRoute (nextUrl_pathname r)) \<longrightarrow>
      middleware (r\<lparr>cookies := (cookies r)(''inopsio_token'' := None)\<rparr>) \<noteq>
      middleware (r\<lparr>cookies := (cookies r)(''inopsio_token'' \<mapsto> t)\<rparr>)"
    using middleware_depends_on_cookie [of t r] by (simp add: k)
  have f: "t \<noteq> [] \<and> cookies r ''inopsio_token'' = Some t
        \<and> isProtectedRoute (nextUrl_pathname r) \<and> \<not> isAuthRoute (nextUrl_pathname r) \<longrightarrow>
      middleware r = NextResponse_next"
    by (simp add: middleware_unfold k truthy_def)
  have g: "cookies r ''inopsio_token'' = None \<and> isProtectedRoute (nextUrl_pathname r) \<longrightarrow>
      (\<exists>target. middleware r = NextResponse_redirect target)"
    by (simp add: middleware_unfold k truthy_def)
  from a b c d e f g show ?thesis by blast
qed

theorem setToken_mirrors_cookie_witness:
  "setToken ''abc'' (Some \<lparr>localStorage = Map.empty, document_cookie = []\<rparr>) =
     Some \<lparr>localStorage = [''inopsio_token'' \<mapsto> ''abc''],
           document_cookie = [''inopsio_token=abc; path=/; max-age=604800; SameSite=Lax'']\<rparr>
   \<and> middleware \<lparr>nextUrl_pathname = ''/en/dashboard'',
         cookies = [''inopsio_token'' \<mapsto> ''abc'', ''theme'' \<mapsto> ''dark''], url = ''u''\<rparr> =
      middleware \<lparr>nextUrl_pathname = ''/en/dashboard'',
         cookies = [''inopsio_token'' \<mapsto> ''abc''], url = ''u''\<rparr>
   \<and> ''abc'' \<noteq> [] \<and> isProtectedRoute ''/en/dashboard'' \<and> \<not> isAuthRoute ''/en/dashboard''
   \<and> middleware \<lparr>nextUrl_pathname = ''/en/dashboard'',
         cookies = [''inopsio_token'' \<mapsto> ''abc''], url = ''u''\<rparr> = NextResponse_next
   \<and> middleware \<lparr>nextUrl_pathname = ''/en/dashboard'', cookies = Map.empty, url = ''u''\<rparr> \<noteq>
      middleware \<lparr>nextUrl_pathname = ''/en/dashboard'',
         cookies = [''inopsio_token'' \<mapsto> ''abc''], url = ''u''\<rparr>"
  using setToken_mirrors_cookie
    [of "''abc''" "\<lparr>localStorage = Map.empty, document_cookie = []\<rparr>"
        "\<lparr>nextUrl_pathname = ''/en/dashboard'',
           cookies = [''inopsio_token'' \<mapsto> ''abc'', ''theme'' \<mapsto> ''dark''], url = ''u''\<rparr>"
        "\<lparr>nextUrl_pathname = ''/en/dashboard'',
           cookies = [''inopsio_token'' \<mapsto> ''abc''], url = ''u''\<rparr>"]
    setToken_mirrors_cookie
    [of "''abc''" "\<lparr>localStorage = Map.empty, document_cookie = []\<rparr>"
        "\<lparr>nextUrl_pathname = ''/en/dashboard'', cookies = Map.empty, url = ''u''\<rparr>"
        "\<lparr>nextUrl_pathname = ''/en/dashboard'', cookies = Map.empty, url = ''u''\<rparr>"]
  by (simp add: en_dashboard_routes middleware_unfold truthy_def TOKEN_KEY_middleware_def)

section \<open>Login\<close>

text \<open>
  Claim C7. For every email and password, \<^verbatim>\<open>login\<close> posts the fields
  \<^verbatim>\<open>username\<close> and \<^verbatim>\<open>password\<close> as URL search parameters with content type
  \<^verbatim>\<open>application/x-www-form-urlencoded\<close>, not as JSON; when the response is ok and
  its body parses, \<^verbatim>\<open>login\<close> returns that body, an access token with the token type
  \<^verbatim>\<open>bearer\<close>, and the window afterwards is the one \<^verbatim>\<open>setToken\<close> leaves for the
  returned access token.
\<close>

theorem login_form_encoded:
  "request_method (login_request api email password) = ''POST''
   \<and> request_headers (login_request api email password) ''Content-Type'' =
       Some ''application/x-www-form-urlencoded''
   \<and> request_body (login_request api email password) =
       Some (URLSearchParams [(''username'', email), (''password'', password)])
   \<and> (fetch (login_request api email password) = Some response \<and> response_ok response
        \<and> response_json response = Some b \<longrightarrow>
      login api fetch email password w =
        (Inr (body_value b), setToken (access_token (body_value b)) w)
      \<and> token_type (body_value b) = bearer)"
proof -
  have tt: "token_type (body_value b) = bearer"
    by (cases "token_type (body_value b)") simp
  show ?thesis
    by (simp add: login_request_def login_def Let_def tt)
qed

theorem login_form_encoded_witness:
  "response_ok \<lparr>response_status = 200, response_request_id = None,
       response_json = Some \<lparr>body_detail = None,
         body_value = \<lparr>access_token = ''tok'', token_type = bearer\<rparr>\<rparr>\<rparr>
   \<and> login ''https://api.example''
       (\<lambda>q. Some \<lparr>response_status = 200, response_request_id = None,
          response_json = Some \<lparr>body_detail = None,
            body_value = \<lparr>access_token = ''tok'', token_type = bearer\<rparr>\<rparr>\<rparr>)
       ''ada@example.org'' ''secret''
       (Some \<lparr>localStorage = Map.empty, document_cookie = []\<rparr>) =
     (Inr \<lparr>access_token = ''tok'', token_type = bearer\<rparr> :: unit thrown + AuthResponse,
      Some \<lparr>localStorage = [''inopsio_token'' \<mapsto> ''tok''],
            document_cookie = [''inopsio_token=tok; path=/; max-age=604800; SameSite=Lax'']\<rparr>)"
  using login_form_encoded
    [where 'a = unit, of "''https://api.example''" "''ada@example.org''" "''secret''"
        "\<lambda>q. Some \<lparr>response_status = 200, response_request_id = None,
          response_json = Some \<lparr>body_detail = None,
            body_value = \<lparr>access_token = ''tok'', token_type = bearer\<rparr>\<rparr>\<rparr>"
        "\<lparr>response_status = 200, response_request_id = None,
          response_json = Some \<lparr>body_detail = None,
            body_value = \<lparr>access_token = ''tok'', token_type = bearer\<rparr>\<rparr>\<rparr>"
        "\<lparr>body_detail = None, body_value = \<lparr>access_token = ''tok'', token_type = bearer\<rparr>\<rparr>"
        "Some \<lparr>localStorage = Map.empty, document_cookie = []\<rparr>"]
  by (simp add: response_ok_def setToken_def TOKEN_KEY_def seven_days)

section \<open>Responses of the API client\<close>





section \<open>Tokens on the client\<close>

lemma split_on_no_separator: "d \<notin> set s \<Longrightarrow> split_on d s = [s]"
  by (induction s) auto

lemma atob_undefined: "atob ''undefined'' = None"
  by (simp add: atob_def is_ascii_whitespace_def)

lemma decodeToken_segment:
  "split_on CHR ''.'' t = h # seg # rest \<Longrightarrow>
   decodeToken J t = (case atob seg of None \<Rightarrow> None
                      | Some s \<Rightarrow> (case J s of None \<Rightarrow> None | Some v \<Rightarrow> v))"
  by (simp add: decodeToken_def)

lemma isTokenExpired_null: "decodeToken J t = None \<Longrightarrow> isTokenExpired J now t"
  by (simp add: isTokenExpired_def)

text \<open>
  Claim C9. For every string whose second dot-separated segment is not valid
  base64-encoded JSON (\<^verbatim>\<open>atob\<close> throws on it, or \<^verbatim>\<open>JSON.parse\<close> throws on what
  it decodes to), and for every string without a dot, \<^verbatim>\<open>decodeToken\<close> returns
  \<^verbatim>\<open>null\<close> instead of throwing and \<^verbatim>\<open>isTokenExpired\<close> returns \<^verbatim>\<open>true\<close>:
  a malformed token counts as expired. \<^verbatim>\<open>JSON.parse\<close> is any function.
\<close>

theorem malformed_token_is_expired:
  "(CHR ''.'' \<notin> set t \<longrightarrow> decodeToken J t = None \<and> isTokenExpired J now t = True)
   \<and> (\<forall>h seg rest.
        split_on CHR ''.'' t = h # seg # rest
        \<and> (atob seg = None \<or> (\<exists>s. atob seg = Some s \<and> J s = None)) \<longrightarrow>
        decodeToken J t = None \<and> isTokenExpired J now t = True)"
proof (rule conjI)
  show "CHR ''.'' \<notin> set t \<longrightarrow> decodeToken J t = None \<and> isTokenExpired J now t = True"
    by (simp add: isTokenExpired_def decodeToken_def split_on_no_separator atob_undefined)
next
  show "\<forall>h seg rest.
        split_on CHR ''.'' t = h # seg # rest
        \<and> (atob seg = None \<or> (\<exists>s. atob seg = Some s \<and> J s = None)) \<longrightarrow>
        decodeToken J t = None \<and> isTokenExpired J now t = True"
    by (auto simp: isTokenExpired_def decodeToken_segment)
qed

theorem malformed_token_is_expired_witness:
  "CHR ''.'' \<notin> set ''not-a-token''
   \<and> decodeToken (\<lambda>s. None) ''not-a-token'' = None
   \<and> isTokenExpired (\<lambda>s. None) 0 ''not-a-token'' = True
   \<and> split_on CHR ''.'' ''a.b!.c'' = [''a'', ''b!'', ''c'']
   \<and> atob ''b!'' = None
   \<and> isTokenExpired (\<lambda>s. Some (Some \<lparr>sub = ''u'', exp = 9999999999\<rparr>)) 0 ''a.b!.c'' = True"
proof -
  have s: "split_on CHR ''.'' ''a.b!.c'' = [''a'', ''b!'', ''c'']" by simp
  have d: "CHR ''.'' \<notin> set ''not-a-token''" by simp
  have a: "atob ''b!'' = None"
    by (simp add: atob_def is_ascii_whitespace_def strip_padding_def base64_alphabet_def)
  show ?thesis
    using malformed_token_is_expired [of "''not-a-token''" "\<lambda>s. None" 0]
      malformed_token_is_expired
        [of "''a.b!.c''" "\<lambda>s. Some (Some \<lparr>sub = ''u'', exp = 9999999999\<rparr>)" 0] s d a
    by simp
qed

lemma isTokenExpired_payload:
  "decodeToken J t = Some p \<Longrightarrow>
   isTokenExpired J now t = (exp p * 1000 - 60000 \<le> now)"
  by (simp add: isTokenExpired_def)

lemma atob_example:
  "atob ''eyJzdWIiOiJ1MSIsImV4cCI6MTAwMH0'' =
     Some [CHR ''{'', CHR 0x22, CHR ''s'', CHR ''u'', CHR ''b'', CHR 0x22, CHR '':'', CHR 0x22,
           CHR ''u'', CHR ''1'', CHR 0x22, CHR '','', CHR 0x22, CHR ''e'', CHR ''x'', CHR ''p'',
           CHR 0x22, CHR '':'', CHR ''1'', CHR ''0'', CHR ''0'', CHR ''0'', CHR ''}'']"
  by (simp add: atob_def is_ascii_whitespace_def strip_padding_def base64_alphabet_def byte_def
        Let_def)

text \<open>
  Claim C1, on the code. The claim puts the end of a token's validity at its expiry
  plus the 60 seconds of leeway. \<^verbatim>\<open>isTokenExpired\<close> subtracts the 60 seconds from the
  expiry instead: for the payload \<^verbatim>\<open>{"sub":"u1","exp":1000}\<close>, expiring at
  1000000 ms, the token is still valid at 939999 ms and is reported expired from
  940000 ms on, 60 seconds before its expiry and 120 seconds before the end of the
  window the claim gives it. The parser here knows that one payload.
\<close>

theorem isTokenExpired_sixty_seconds_early:
  "decodeToken (\<lambda>s. if s = [CHR ''{'', CHR 0x22, CHR ''s'', CHR ''u'', CHR ''b'', CHR 0x22, CHR '':'', CHR 0x22,
           CHR ''u'', CHR ''1'', CHR 0x22, CHR '','', CHR 0x22, CHR ''e'', CHR ''x'', CHR ''p'',
           CHR 0x22, CHR '':'', CHR ''1'', CHR ''0'', CHR ''0'', CHR ''0'', CHR ''}'']
            then Some (Some \<lparr>sub = ''u1'', exp = 1000\<rparr>) else None)
       ''h.eyJzdWIiOiJ1MSIsImV4cCI6MTAwMH0.s'' = Some \<lparr>sub = ''u1'', exp = 1000\<rparr>
   \<and> isTokenExpired (\<lambda>s. if s = [CHR ''{'', CHR 0x22, CHR ''s'', CHR ''u'', CHR ''b'', CHR 0x22, CHR '':'', CHR 0x22,
           CHR ''u'', CHR ''1'', CHR 0x22, CHR '','', CHR 0x22, CHR ''e'', CHR ''x'', CHR ''p'',
           CHR 0x22, CHR '':'', CHR ''1'', CHR ''0'', CHR ''0'', CHR ''0'', CHR ''}'']
            then Some (Some \<lparr>sub = ''u1'', exp = 1000\<rparr>) else None) 939999
       ''h.eyJzdWIiOiJ1MSIsImV4cCI6MTAwMH0.s'' = False
   \<and> isTokenExpired (\<lambda>s. if s = [CHR ''{'', CHR 0x22, CHR ''s'', CHR ''u'', CHR ''b'', CHR 0x22, CHR '':'', CHR 0x22,
           CHR ''u'', CHR ''1'', CHR 0x22, CHR '','', CHR 0x22, CHR ''e'', CHR ''x'', CHR ''p'',
           CHR 0x22, CHR '':'', CHR ''1'', CHR ''0'', CHR ''0'', CHR ''0'', CHR ''}'']
            then Some (Some \<lparr>sub = ''u1'', exp = 1000\<rparr>) else None) 940000
       ''h.eyJzdWIiOiJ1MSIsImV4cCI6MTAwMH0.s'' = True
   \<and> isTokenExpired (\<lambda>s. if s = [CHR ''{'', CHR 0x22, CHR ''s'', CHR ''u'', CHR ''b'', CHR 0x22, CHR '':'', CHR 0x22,
           CHR ''u'', CHR ''1'', CHR 0x22, CHR '','', CHR 0x22, CHR ''e'', CHR ''x'', CHR ''p'',
           CHR 0x22, CHR '':'', CHR ''1'', CHR ''0'', CHR ''0'', CHR ''0'', CHR ''}'']
            then Some (Some \<lparr>sub = ''u1'', exp = 1000\<rparr>) else None) 1000000
       ''h.eyJzdWIiOiJ1MSIsImV4cCI6MTAwMH0.s'' = True"
proof -
  have d: "decodeToken (\<lambda>s. if s = [CHR ''{'', CHR 0x22, CHR ''s'', CHR ''u'', CHR ''b'', CHR 0x22, CHR '':'', CHR 0x22,
           CHR ''u'', CHR ''1'', CHR 0x22, CHR '','', CHR 0x22, CHR ''e'', CHR ''x'', CHR ''p'',
           CHR 0x22, CHR '':'', CHR ''1'', CHR ''0'', CHR ''0'', CHR ''0'', CHR ''}'']
            then Some (Some \<lparr>sub = ''u1'', exp = 1000\<rparr>) else None)
       ''h.eyJzdWIiOiJ1MSIsImV4cCI6MTAwMH0.s'' = Some \<lparr>sub = ''u1'', exp = 1000\<rparr>"
    by (simp add: decodeToken_def atob_example)
  show ?thesis by (simp add: d isTokenExpired_payload [OF d])
qed

section \<open>Tenant isolation of the store\<close>

lemma items_subset:
  "set (items (store_list db ty A flt sk lim)) \<subseteq> {e \<in> set (db ty). scoped A flt e}"
proof -
  have "set (take lim (drop sk (filter (scoped A flt) (db ty)))) \<subseteq> set (filter (scoped A flt) (db ty))"
    by (meson set_take_subset set_drop_subset subset_trans)
  then show ?thesis by (simp add: store_list_def Let_def)
qed

text \<open>
  Claim C2. For organizations \<open>A\<close> and \<open>B\<close>, every row that \<^verbatim>\<open>list\<close> scoped to
  \<open>A\<close> returns is a stored row whose organization id is \<open>A\<close> and that satisfies the
  caller's filter, whatever the filter, skip and limit are; no row of \<open>B\<close> is ever
  among them, also when the filter says nothing about the organization; a filter
  that asks for \<open>B\<close> does not replace the scope but composes with it, so that nothing
  is returned; and the total is counted under the same scoped filter.
\<close>

theorem store_list_tenant_scoped:
  "(\<forall>e \<in> set (items (store_list db ty A flt sk lim)).
       organization_id e = A \<and> flt e \<and> e \<in> set (db ty))
   \<and> (A \<noteq> B \<longrightarrow> (\<forall>e \<in> set (items (store_list db ty A flt sk lim)). organization_id e \<noteq> B))
   \<and> (\<forall>e \<in> set (items (store_list db ty A (\<lambda>e. True) sk lim)). organization_id e = A)
   \<and> (A \<noteq> B \<longrightarrow> items (store_list db ty A (\<lambda>e. organization_id e = B) sk lim) = [])
   \<and> total (store_list db ty A flt sk lim) =
       length (filter (\<lambda>e. organization_id e = A \<and> flt e) (db ty))"
proof -
  have a: "\<forall>e \<in> set (items (store_list db ty A flt sk lim)).
       organization_id e = A \<and> flt e \<and> e \<in> set (db ty)"
    using items_subset [of db ty A flt sk lim] by (auto simp: scoped_def)
  have b: "A \<noteq> B \<longrightarrow> (\<forall>e \<in> set (items (store_list db ty A flt sk lim)). organization_id e \<noteq> B)"
    using a by auto
  have c: "\<forall>e \<in> set (items (store_list db ty A (\<lambda>e. True) sk lim)). organization_id e = A"
    using items_subset [of db ty A "\<lambda>e. True" sk lim] by (auto simp: scoped_def)
  have d: "A \<noteq> B \<longrightarrow> items (store_list db ty A (\<lambda>e. organization_id e = B) sk lim) = []"
  proof
    assume "A \<noteq> B"
    then have "filter (scoped A (\<lambda>e. organization_id e = B)) (db ty) = []"
      by (auto simp: scoped_def filter_empty_conv)
    then show "items (store_list db ty A (\<lambda>e. organization_id e = B) sk lim) = []"
      by (simp add: store_list_def)
  qed
  have e: "total (store_list db ty A flt sk lim) =
       length (filter (\<lambda>e. organization_id e = A \<and> flt e) (db ty))"
    by (simp add: store_list_def Let_def scoped_def [abs_def])
  from a b c d e show ?thesis by blast
qed

theorem store_list_tenant_scoped_witness:
  "items (store_list
      (\<lambda>ty. [\<lparr>entity_id = ''1'', organization_id = ''A'', payload = ''a1''\<rparr>,
             \<lparr>entity_id = ''2'', organization_id = ''B'', payload = ''b1''\<rparr>,
             \<lparr>entity_id = ''3'', organization_id = ''A'', payload = ''a2''\<rparr>])
      ''project'' ''A'' (\<lambda>e. True) 0 10) =
     [\<lparr>entity_id = ''1'', organization_id = ''A'', payload = ''a1''\<rparr>,
      \<lparr>entity_id = ''3'', organization_id = ''A'', payload = ''a2''\<rparr>]
   \<and> ''A'' \<noteq> ''B''
   \<and> items (store_list
      (\<lambda>ty. [\<lparr>entity_id = ''1'', organization_id = ''A'', payload = ''a1''\<rparr>,
             \<lparr>entity_id = ''2'', organization_id = ''B'', payload = ''b1''\<rparr>,
             \<lparr>entity_id = ''3'', organization_id = ''A'', payload = ''a2''\<rparr>])
      ''project'' ''A'' (\<lambda>e. organization_id e = ''B'') 0 10) = []"
  using store_list_tenant_scoped
    [of "\<lambda>ty. [\<lparr>entity_id = ''1'', organization_id = ''A'', payload = ''a1''\<rparr>,
             \<lparr>entity_id = ''2'', organization_id = ''B'', payload = ''b1''\<rparr>,
             \<lparr>entity_id = ''3'', organization_id = ''A'', payload = ''a2''\<rparr>]"
        "''project''" "''A''" "\<lambda>e. True" 0 10 "''B''"]
  by (simp add: store_list_def scoped_def)

lemma find_scoped_None:
  "(\<forall>e \<in> set xs. entity_id e = i \<longrightarrow> organization_id e \<noteq> A) \<Longrightarrow>
   find (scoped A (\<lambda>e. entity_id e = i)) xs = None"
  by (auto simp: find_None_iff scoped_def)

text \<open>
  Claim C3. When every stored row with id \<open>i\<close> belongs to organization \<open>B\<close>,
  \<^verbatim>\<open>get\<close> of \<open>i\<close> with scope \<open>A\<close>, distinct from \<open>B\<close>, fails with
  \<^verbatim>\<open>NotFound\<close>; that is the very result of \<^verbatim>\<open>get\<close> with scope \<open>A\<close> on an id
  \<open>j\<close> that no organization has; and \<^verbatim>\<open>NotFound\<close> is the only failure it gives
  for such an id.
\<close>

theorem store_get_cross_tenant:
  assumes "A \<noteq> B"
    and "\<forall>e \<in> set (db ty). entity_id e = i \<longrightarrow> organization_id e = B"
    and "\<forall>e \<in> set (db ty). entity_id e \<noteq> j"
  shows "store_get db ty A i = Inl NotFound
         \<and> store_get db ty A i = store_get db ty A j
         \<and> (\<forall>f. store_get db ty A i = Inl f \<longrightarrow> f = NotFound)"
proof -
  have "find (scoped A (\<lambda>e. entity_id e = i)) (db ty) = None"
    using assms(1,2) by (intro find_scoped_None) auto
  moreover have "find (scoped A (\<lambda>e. entity_id e = j)) (db ty) = None"
    using assms(3) by (intro find_scoped_None) auto
  ultimately show ?thesis by (simp add: store_get_def)
qed

theorem store_get_cross_tenant_witness:
  "''A'' \<noteq> ''B''
   \<and> store_get
       (\<lambda>ty. [\<lparr>entity_id = ''1'', organization_id = ''A'', payload = ''a1''\<rparr>,
              \<lparr>entity_id = ''2'', organization_id = ''B'', payload = ''b1''\<rparr>])
       ''project'' ''B'' ''2'' = Inr \<lparr>entity_id = ''2'', organization_id = ''B'', payload = ''b1''\<rparr>
   \<and> store_get
       (\<lambda>ty. [\<lparr>entity_id = ''1'', organization_id = ''A'', payload = ''a1''\<rparr>,
              \<lparr>entity_id = ''2'', organization_id = ''B'', payload = ''b1''\<rparr>])
       ''project'' ''A'' ''2'' = Inl NotFound
   \<and> store_get
       (\<lambda>ty. [\<lparr>entity_id = ''1'', organization_id = ''A'', payload = ''a1''\<rparr>,
              \<lparr>entity_id = ''2'', organization_id = ''B'', payload = ''b1''\<rparr>])
       ''project'' ''A'' ''9'' = Inl NotFound"
  using store_get_cross_tenant
    [of "''A''" "''B''"
        "\<lambda>ty. [\<lparr>entity_id = ''1'', organization_id = ''A'', payload = ''a1''\<rparr>,
              \<lparr>entity_id = ''2'', organization_id = ''B'', payload = ''b1''\<rparr>]"
        "''project''" "''2''" "''9''"]
  by (simp add: store_get_def scoped_def)

end
